theory Spec2Isabelle
  imports Complex_Main "HOL-Library.Sublist" "HOL-Library.AList"
begin

section \<open>Strings\<close>

text \<open>
  A Python \<open>str\<close> is modelled as a \<open>string\<close>, one \<open>char\<close> per code point, for
  the code points U+0000 to U+00FF. \<open>length\<close> is Python's \<open>len\<close> and \<open>take n\<close> is the slice
  \<open>text[:n]\<close> for \<open>n \<ge> 0\<close>.
\<close>

definition is_space :: "char \<Rightarrow> bool" where
  \<comment> \<open>The characters \<open>str.strip()\<close> removes (those with \<open>str.isspace\<close>), below U+0100:
      TAB, LF, VT, FF, CR, FS, GS, RS, US, SPACE, NEL and NBSP.\<close>
  "is_space c = (of_char c \<in> {9, 10, 11, 12, 13, 28, 29, 30, 31, 32, 133, 160 :: nat})"

definition strip :: "string \<Rightarrow> string" where
  "strip s = rev (dropWhile is_space (rev (dropWhile is_space s)))"

section \<open>Exceptions\<close>

text \<open>
  A Python exception is its class and its message \<open>str(exc)\<close>. An \<open>HTTPException\<close> carries
  its status code, its detail and the exception it was raised \<open>from\<close>, if any; every other
  exception that leaves a function is \<open>Uncaught\<close>.
\<close>

datatype exc_class =
  APITimeoutError | OpenAIError | OtherException | TextExtractionError
  | FileNotFoundError | SameFileError | InvalidFileException | RuntimeErrorClass

datatype exc = Exc exc_class string

datatype error = HTTPException nat string "exc option" | Uncaught exc

section \<open>The context budgeter (\<open>loader_generator.py\<close>)\<close>

definition MAX_CHARS_PER_FILE :: nat where
  "MAX_CHARS_PER_FILE = 60000"

definition MAX_TOTAL_CHARS :: nat where
  "MAX_TOTAL_CHARS = 220000"

definition truncate_text :: "string \<Rightarrow> nat \<Rightarrow> string \<times> bool" where
  "truncate_text text limit =
     (if length text \<le> limit then (text, False) else (take limit text, True))"

definition normalize_text :: "string \<Rightarrow> string" where
  \<comment> \<open>\<open>(text or "").replace("\x00", "").strip()\<close>\<close>
  "normalize_text text = strip (filter (\<lambda>c. c \<noteq> CHR 0x00) text)"

text \<open>
  The truncation report \<open>meta\<close>. The dictionary \<open>meta["truncated"]["standards"]\<close> is an
  association list in insertion order; \<open>AList.update\<close> is the dictionary assignment
  (an existing key keeps its place, a new key goes to the end).
\<close>

record trunc_meta =
  max_chars_per_file :: nat
  max_total_chars :: nat
  truncated_agreement :: bool
  truncated_standards :: "(string \<times> bool) list"

text \<open>The first loop of \<open>_truncate_inputs\<close>: normalize and cap every standard.\<close>

fun cap_standards ::
  "(string \<times> string) list \<Rightarrow> trunc_meta \<Rightarrow> (string \<times> string) list \<Rightarrow>
     trunc_meta \<times> (string \<times> string) list" where
  "cap_standards [] meta normalized_standards = (meta, normalized_standards)"
| "cap_standards ((filename, text) # rest) meta normalized_standards =
     (let text1 = normalize_text text;
          (text2, trunc) = truncate_text text1 MAX_CHARS_PER_FILE;
          meta' = meta\<lparr>truncated_standards :=
                    AList.update filename trunc (truncated_standards meta)\<rparr>
      in cap_standards rest meta' (normalized_standards @ [(filename, text2)]))"

text \<open>The lookup \<open>meta["truncated"]["standards"][filename]\<close>; the key is always present
  when the second loop reads it, and a missing key (Python's \<open>KeyError\<close>) reads as
  \<open>False\<close> here.\<close>

definition flag_of :: "(string \<times> bool) list \<Rightarrow> string \<Rightarrow> bool" where
  "flag_of d filename = (case map_of d filename of Some b \<Rightarrow> b | None \<Rightarrow> False)"

text \<open>The second loop: re-truncate every standard to the per-standard budget.\<close>

fun retruncate_standards ::
  "nat \<Rightarrow> (string \<times> string) list \<Rightarrow> trunc_meta \<Rightarrow> (string \<times> string) list \<Rightarrow>
     trunc_meta \<times> (string \<times> string) list" where
  "retruncate_standards per_standard_budget [] meta final_standards = (meta, final_standards)"
| "retruncate_standards per_standard_budget ((filename, text) # rest) meta final_standards =
     (let (text2, trunc2) = truncate_text text per_standard_budget;
          meta' = meta\<lparr>truncated_standards :=
                    AList.update filename
                      (flag_of (truncated_standards meta) filename \<or> trunc2)
                      (truncated_standards meta)\<rparr>
      in retruncate_standards per_standard_budget rest meta' (final_standards @ [(filename, text2)]))"

definition total_chars :: "string \<Rightarrow> (string \<times> string) list \<Rightarrow> nat" where
  \<comment> \<open>\<open>len(agreement_text) + sum(len(t) for _, t in standards)\<close>\<close>
  "total_chars agreement_text standards =
     length agreement_text + sum_list (map (\<lambda>(_, t). length t) standards)"

definition per_standard_budget_of :: "string \<Rightarrow> (string \<times> string) list \<Rightarrow> nat" where
  "per_standard_budget_of agreement_text normalized_standards =
     (let remaining_budget = nat (max 0 (int MAX_TOTAL_CHARS - int (length agreement_text)))
      in max 5000 (remaining_budget div length normalized_standards))"

definition truncate_inputs ::
  "string \<Rightarrow> (string \<times> string) list \<Rightarrow> string \<times> (string \<times> string) list \<times> trunc_meta" where
  "truncate_inputs agreement_text standards =
     (let meta0 = \<lparr>max_chars_per_file = MAX_CHARS_PER_FILE,
                   max_total_chars = MAX_TOTAL_CHARS,
                   truncated_agreement = False,
                   truncated_standards = []\<rparr>;
          agreement_text1 = normalize_text agreement_text;
          (agreement_text2, truncated_agreement) = truncate_text agreement_text1 MAX_CHARS_PER_FILE;
          meta1 = meta0\<lparr>truncated_agreement := truncated_agreement\<rparr>;
          (meta2, normalized_standards) = cap_standards standards meta1 [];
          total = total_chars agreement_text2 normalized_standards
      in if total \<le> MAX_TOTAL_CHARS \<or> normalized_standards = []
         then (agreement_text2, normalized_standards, meta2)
         else
           (let per_standard_budget = per_standard_budget_of agreement_text2 normalized_standards;
                (meta3, final_standards) =
                   retruncate_standards per_standard_budget normalized_standards meta2 []
            in (agreement_text2, final_standards, meta3)))"

text \<open>What the per-file cap alone does to one text.\<close>

definition capped :: "string \<Rightarrow> string" where
  "capped text = fst (truncate_text (normalize_text text) MAX_CHARS_PER_FILE)"

definition cut :: "string \<Rightarrow> bool" where
  "cut text = snd (truncate_text (normalize_text text) MAX_CHARS_PER_FILE)"

definition cap_all :: "(string \<times> string) list \<Rightarrow> (string \<times> string) list" where
  "cap_all standards = map (\<lambda>(filename, text). (filename, capped text)) standards"

definition cut_flags :: "(string \<times> string) list \<Rightarrow> (string \<times> bool) list" where
  "cut_flags standards = map (\<lambda>(filename, text). (filename, cut text)) standards"

text \<open>Sample inputs: \<open>n\<close> standards with distinct file names and the same text.\<close>
primrec numbered_standards :: "nat \<Rightarrow> string \<Rightarrow> (string \<times> string) list" where
  "numbered_standards 0 body = []"
| "numbered_standards (Suc n) body =
     (replicate (Suc n) (CHR ''s''), body) # numbered_standards n body"

section \<open>The output versioner (\<open>utils/files.py\<close>)\<close>

text \<open>Python's \<open>str(i)\<close> for a non-negative integer: its decimal digits.\<close>

fun str_nat :: "nat \<Rightarrow> string" where
  "str_nat n =
     (if n < 10 then [''0123456789'' ! n]
      else str_nat (n div 10) @ [''0123456789'' ! (n mod 10)])"

declare str_nat.simps [simp del]

definition candidates :: "string \<Rightarrow> string list" where
  \<comment> \<open>\<open>[base_name] + [f"{base_name}_v{i}" for i in range(2, 10_000)]\<close>\<close>
  "candidates base_name =
     [base_name] @ map (\<lambda>i. base_name @ ''_v'' @ str_nat i) [2..<10000]"

text \<open>
  The directory \<open>parent\<close> is seen through the set \<open>existing\<close> of the names \<open>n\<close> for which
  the path \<open>parent / n\<close> exists. \<open>p.mkdir(parents=True, exist_ok=False)\<close> on \<open>p = parent / name\<close>
  is one system call that raises \<open>FileExistsError\<close> when the path exists and creates the
  directory otherwise (\<open>parent\<close> itself exists after \<open>ensure_dir(parent)\<close>, and the names
  are single path components, as \<open>safe_agreement_base_name\<close> returns them). Other
  failures of the operating system are not modelled.
\<close>

datatype mkdir_error = FileExistsError

definition mkdir :: "string set \<Rightarrow> string \<Rightarrow> mkdir_error + string set" where
  "mkdir existing name =
     (if name \<in> existing then Inl FileExistsError else Inr (insert name existing))"

datatype alloc_error = RuntimeError string

text \<open>The loop over the candidates: the first \<open>mkdir\<close> that succeeds returns.\<close>

fun try_candidates :: "string set \<Rightarrow> string list \<Rightarrow> (alloc_error + string) \<times> string set" where
  "try_candidates existing [] =
     (Inl (RuntimeError
        ''Failed to allocate a versioned output directory (too many existing versions).''),
      existing)"
| "try_candidates existing (name # rest) =
     (case mkdir existing name of
        Inr existing' \<Rightarrow> (Inr name, existing')
      | Inl FileExistsError \<Rightarrow> try_candidates existing rest)"

definition create_versioned_output_dir ::
  "string set \<Rightarrow> string \<Rightarrow> (alloc_error + string) \<times> string set" where
  "create_versioned_output_dir existing base_name =
     try_candidates existing (candidates base_name)"

section \<open>The spreadsheet templater (\<open>loader_generator.py\<close>)\<close>

text \<open>
  \<open>ExcelOutputPlan\<close> of \<open>models/schemas.py\<close>. The rates are Python floats, read here as
  real numbers (the schema's \<open>ge=0.0\<close> excludes NaN); \<open>direction\<close> is the string that the
  templater compares.
\<close>

record ExcelOutputPlan =
  direction :: string
  client_tadig :: string
  partner_tadig :: string
  start_date :: string
  end_date :: string
  currency :: string
  sms_mo_rate :: real
  sms_mt_rate :: real
  is_discount :: bool
  filename :: string

definition SMS_MO_ROW :: nat where "SMS_MO_ROW = 35"
definition SMS_MT_ROW :: nat where "SMS_MT_ROW = 53"
definition SMS_RATE_COL :: string where "SMS_RATE_COL = ''J''"
definition SMS_DISCOUNT_COL :: string where "SMS_DISCOUNT_COL = ''I''"
definition SMS_CURRENCY_COL :: string where "SMS_CURRENCY_COL = ''H''"
definition SMS_INITIAL_FEE_COL :: string where "SMS_INITIAL_FEE_COL = ''L''"
definition SMS_CHARGING_INTERVAL_COL :: string where "SMS_CHARGING_INTERVAL_COL = ''K''"

subsection \<open>\<open>FILENAME_PATTERN\<close>\<close>

definition is_alnum :: "char \<Rightarrow> bool" where
  \<comment> \<open>the class \<open>[A-Za-z0-9]\<close>\<close>
  "is_alnum c =
     (let n = (of_char c :: nat)
      in (65 \<le> n \<and> n \<le> 90) \<or> (97 \<le> n \<and> n \<le> 122) \<or> (48 \<le> n \<and> n \<le> 57))"

definition is_digit :: "char \<Rightarrow> bool" where
  \<comment> \<open>the class \<open>\d\<close>; below U+0100 the decimal digits are \<open>0\<close> to \<open>9\<close>\<close>
  "is_digit c = (let n = (of_char c :: nat) in 48 \<le> n \<and> n \<le> 57)"

text \<open>
  \<open>FILENAME_PATTERN.match(s)\<close>, returning the groups \<open>client\<close>, \<open>partner\<close>, \<open>direction\<close>,
  \<open>start\<close> and \<open>end\<close>. The pattern is anchored at both ends and the character after each
  \<open>[A-Za-z0-9]+\<close> is an underscore, which is outside the class, so the greedy match is the
  only one and the pattern is read from left to right. Python's \<open>$\<close> also matches just
  before a newline that ends the string.
\<close>

definition match_tail :: "string \<Rightarrow> bool" where
  \<comment> \<open>\<open>_D\.xlsx$\<close>\<close>
  "match_tail s = (s = ''_D.xlsx'' \<or> s = ''_D.xlsx'' @ [CHR 0x0A])"

definition match_digits8 :: "string \<Rightarrow> (string \<times> string) option" where
  \<comment> \<open>\<open>\d{8}\<close> at the start of \<open>s\<close>: the eight digits and the rest\<close>
  "match_digits8 s =
     (if 8 \<le> length s \<and> list_all is_digit (take 8 s) then Some (take 8 s, drop 8 s) else None)"

definition match_alnum1 :: "string \<Rightarrow> (string \<times> string) option" where
  \<comment> \<open>\<open>[A-Za-z0-9]+_\<close> at the start of \<open>s\<close>: the group and what follows the underscore\<close>
  "match_alnum1 s =
     (let g = takeWhile is_alnum s in
      if g = [] then None
      else (case dropWhile is_alnum s of
              c # rest \<Rightarrow> if c = CHR ''_'' then Some (g, rest) else None
            | [] \<Rightarrow> None))"

definition match_direction :: "string \<Rightarrow> (string \<times> string) option" where
  \<comment> \<open>\<open>(TI|TO)_\<close> at the start of \<open>s\<close>\<close>
  "match_direction s =
     (if take 3 s = ''TI_'' then Some (''TI'', drop 3 s)
      else if take 3 s = ''TO_'' then Some (''TO'', drop 3 s)
      else None)"

definition match_underscore :: "string \<Rightarrow> string option" where
  "match_underscore s = (case s of c # rest \<Rightarrow> if c = CHR ''_'' then Some rest else None | [] \<Rightarrow> None)"

definition FILENAME_PATTERN_match ::
  "string \<Rightarrow> (string \<times> string \<times> string \<times> string \<times> string) option" where
  "FILENAME_PATTERN_match s =
     (case match_alnum1 s of None \<Rightarrow> None | Some (client, s1) \<Rightarrow>
      case match_alnum1 s1 of None \<Rightarrow> None | Some (partner, s2) \<Rightarrow>
      case match_direction s2 of None \<Rightarrow> None | Some (dir, s3) \<Rightarrow>
      case match_digits8 s3 of None \<Rightarrow> None | Some (start, s4) \<Rightarrow>
      case match_underscore s4 of None \<Rightarrow> None | Some s5 \<Rightarrow>
      case match_digits8 s5 of None \<Rightarrow> None | Some (end, s6) \<Rightarrow>
      if match_tail s6 then Some (client, partner, dir, start, end) else None)"

definition remove_dashes :: "string \<Rightarrow> string" where
  \<comment> \<open>\<open>s.replace("-", "")\<close>\<close>
  "remove_dashes s = filter (\<lambda>c. c \<noteq> CHR ''-'') s"

text \<open>The three checks that open \<open>_generate_excel_from_template\<close>.\<close>

definition check_filename :: "ExcelOutputPlan \<Rightarrow> error + unit" where
  "check_filename plan =
     (case FILENAME_PATTERN_match (filename plan) of
        None \<Rightarrow>
          Inl (HTTPException 422
                 (''Invalid output filename '' @ [CHR 0x27] @ filename plan @ [CHR 0x27]
                  @ ''. Expected pattern <ClientTADIG>_<PartnerTADIG>_<TIorTO>_<StartDateYYYYMMDD>_<EndDateYYYYMMDD>_D.xlsx'')
                 None)
      | Some (client, partner, dir, start, end) \<Rightarrow>
          if dir \<noteq> direction plan then
            Inl (HTTPException 422
                   (''Filename direction '' @ dir @ '' does not match plan direction ''
                    @ direction plan) None)
          else
            (let start_digits = remove_dashes (start_date plan);
                 end_digits = remove_dashes (end_date plan)
             in if start \<noteq> start_digits \<or> end \<noteq> end_digits then
                  Inl (HTTPException 422
                         ''Filename start/end dates must match plan start_date/end_date.'' None)
                else Inr ()))"

subsection \<open>Worksheets and files\<close>

text \<open>
  A cell has a value and a fill; a worksheet gives the cell at each coordinate (column
  letters and row number), and a workbook is seen through its active worksheet. The fill
  of a template cell is opaque.
\<close>

datatype cell_value = VNone | VStr string | VInt int | VFloat real

datatype fill = TemplateFill nat | PatternFill string string

record cell =
  cvalue :: cell_value
  cfill :: fill

type_synonym worksheet = "string \<times> nat \<Rightarrow> cell"

datatype file_content = Workbook worksheet | OtherFile string

type_synonym file_store = "string \<Rightarrow> file_content option"

definition set_value :: "worksheet \<Rightarrow> string \<Rightarrow> nat \<Rightarrow> cell_value \<Rightarrow> worksheet" where
  \<comment> \<open>\<open>ws[f"{col}{row_idx}"] = v\<close>\<close>
  "set_value ws col row_idx v = ws((col, row_idx) := (ws (col, row_idx))\<lparr>cvalue := v\<rparr>)"

definition set_fill :: "worksheet \<Rightarrow> string \<Rightarrow> nat \<Rightarrow> fill \<Rightarrow> worksheet" where
  \<comment> \<open>\<open>ws[f"{col}{row_idx}"].fill = f\<close>\<close>
  "set_fill ws col row_idx f = ws((col, row_idx) := (ws (col, row_idx))\<lparr>cfill := f\<rparr>)"

definition write_sms_row ::
  "worksheet \<Rightarrow> nat \<Rightarrow> real \<Rightarrow> string \<Rightarrow> bool \<Rightarrow> fill \<Rightarrow> worksheet" where
  "write_sms_row ws row_idx rate currency' is_discount' highlight =
     (let ws1 = set_value ws SMS_CURRENCY_COL row_idx (VStr currency');
          ws2 = set_value ws1 SMS_DISCOUNT_COL row_idx (VInt (if is_discount' then 1 else 0));
          ws3 = set_value ws2 SMS_RATE_COL row_idx (VFloat rate);
          ws4 = set_value ws3 SMS_INITIAL_FEE_COL row_idx (VStr '''');
          ws5 = fold (\<lambda>col w. set_fill w col row_idx highlight)
                  [SMS_RATE_COL, SMS_CHARGING_INTERVAL_COL] ws4
      in fold (\<lambda>col w. set_value w col row_idx VNone) [''P'', ''Q'', ''R''] ws5)"

text \<open>
  \<open>_generate_excel_from_template\<close> on the files \<open>fs\<close>. \<open>shutil.copy\<close> fails when the
  template does not exist or is the destination; \<open>load_workbook\<close> fails on a file that is
  not a workbook, after the copy. Creating the parent directory of the destination
  changes no file.
\<close>

definition generate_excel_from_template ::
  "file_store \<Rightarrow> string \<Rightarrow> string \<Rightarrow> ExcelOutputPlan \<Rightarrow> (error + unit) \<times> file_store" where
  "generate_excel_from_template fs template_path dest_path plan =
     (case check_filename plan of
        Inl e \<Rightarrow> (Inl e, fs)
      | Inr _ \<Rightarrow>
         (case fs template_path of
            None \<Rightarrow> (Inl (Uncaught (Exc FileNotFoundError template_path)), fs)
          | Some f \<Rightarrow>
             if template_path = dest_path then (Inl (Uncaught (Exc SameFileError template_path)), fs)
             else
               (let fs1 = fs(dest_path \<mapsto> f) in
                case f of
                  OtherFile _ \<Rightarrow> (Inl (Uncaught (Exc InvalidFileException dest_path)), fs1)
                | Workbook ws \<Rightarrow>
                   (let highlight = PatternFill ''solid'' ''FFFF00'';
                        ws1 = set_value ws ''C'' 2 (VStr (partner_tadig plan));
                        ws2 = write_sms_row ws1 SMS_MO_ROW (sms_mo_rate plan) (currency plan)
                                (is_discount plan) highlight;
                        ws3 = (if sms_mt_rate plan \<noteq> 0 \<and> sms_mt_rate plan > 0
                               then write_sms_row ws2 SMS_MT_ROW (sms_mt_rate plan) (currency plan)
                                      (is_discount plan) highlight
                               else ws2)
                    in (Inr (), fs1(dest_path \<mapsto> Workbook ws3))))))"

text \<open>The plan of the specification's end-to-end scenario C.\<close>

definition scenario_plan :: ExcelOutputPlan where
  "scenario_plan =
     \<lparr>direction = ''TI'', client_tadig = ''ABCD'', partner_tadig = ''WXYZ'',
      start_date = ''2024-01-01'', end_date = ''2024-12-31'', currency = ''EUR'',
      sms_mo_rate = 5 / 100, sms_mt_rate = 0, is_discount = True,
      filename = ''ABCD_WXYZ_TI_20240101_20241231_D.xlsx''\<rparr>"

section \<open>Properties of the budgeter\<close>

lemma truncate_fst: "fst (truncate_text text limit) = take limit text"
  by (simp add: truncate_text_def)

lemma truncate_snd: "snd (truncate_text text limit) = (limit < length text)"
  by (auto simp: truncate_text_def)

lemma capped_eq: "capped text = take MAX_CHARS_PER_FILE (normalize_text text)"
  by (simp add: capped_def truncate_fst)

lemma cut_eq: "cut text = (MAX_CHARS_PER_FILE < length (normalize_text text))"
  by (simp add: cut_def truncate_snd)

lemma cap_standards_snd:
  "snd (cap_standards standards meta acc) = acc @ cap_all standards"
proof (induction standards arbitrary: meta acc)
  case Nil
  then show ?case by (simp add: cap_all_def)
next
  case (Cons p rest)
  obtain filename body where p: "p = (filename, body)" by (cases p)
  show ?case
    by (simp add: p Cons.IH cap_all_def capped_def split_beta Let_def)
qed

lemma cap_standards_flags:
  "map_of (truncated_standards (fst (cap_standards standards meta acc))) =
     map_of (truncated_standards meta) ++ map_of (rev (cut_flags standards))"
proof (induction standards arbitrary: meta acc)
  case Nil
  then show ?case by (simp add: cut_flags_def)
next
  case (Cons p rest)
  obtain filename body where p: "p = (filename, body)" by (cases p)
  have c: "cut_flags (p # rest) = (filename, cut body) # cut_flags rest"
    by (simp add: cut_flags_def p)
  have "map_of (truncated_standards (fst (cap_standards (p # rest) meta acc))) =
        (map_of (truncated_standards meta))(filename \<mapsto> cut body) ++ map_of (rev (cut_flags rest))"
    by (simp add: p Cons.IH split_beta Let_def update_conv cut_def fun_upd_def)
  also have "\<dots> = map_of (truncated_standards meta) ++ map_of (rev (cut_flags (p # rest)))"
    by (rule ext) (simp add: c map_add_def split: option.splits)
  finally show ?case .
qed

lemma cap_standards_agreement_flag:
  "truncated_agreement (fst (cap_standards standards meta acc)) = truncated_agreement meta"
  by (induction standards arbitrary: meta acc) (auto simp: split_beta Let_def)

lemma retruncate_standards_snd:
  "snd (retruncate_standards b xs meta acc) =
     acc @ map (\<lambda>(filename, t). (filename, take b t)) xs"
proof (induction xs arbitrary: meta acc)
  case Nil
  then show ?case by simp
next
  case (Cons p rest)
  obtain filename body where p: "p = (filename, body)" by (cases p)
  show ?case
    by (simp add: p Cons.IH truncate_fst split_beta Let_def)
qed


lemma cap_all_Nil: "cap_all S = [] \<longleftrightarrow> S = []"
  by (simp add: cap_all_def)

lemma truncate_inputs_agreement: "fst (truncate_inputs A S) = capped A"
  by (simp add: truncate_inputs_def capped_def split_beta Let_def)

lemma truncate_inputs_texts:
  "fst (snd (truncate_inputs A S)) =
     (if total_chars (capped A) (cap_all S) \<le> MAX_TOTAL_CHARS \<or> S = [] then cap_all S
      else map (\<lambda>(filename, t). (filename, take (per_standard_budget_of (capped A) (cap_all S)) t))
             (cap_all S))"
  using cap_standards_snd [of S _ "[]"] retruncate_standards_snd [of _ _ _ "[]"]
  by (simp add: truncate_inputs_def capped_def split_beta Let_def cap_all_Nil)

lemma truncate_inputs_meta_small:
  assumes "total_chars (capped A) (cap_all S) \<le> MAX_TOTAL_CHARS \<or> S = []"
  shows "truncated_agreement (snd (snd (truncate_inputs A S))) = cut A"
    and "map_of (truncated_standards (snd (snd (truncate_inputs A S)))) = map_of (rev (cut_flags S))"
  using assms cap_standards_snd [of S _ "[]"]
  by (simp_all add: truncate_inputs_def capped_def cut_def split_beta Let_def cap_all_Nil
        cap_standards_flags cap_standards_agreement_flag)

lemma strip_replicate: "\<not> is_space c \<Longrightarrow> strip (replicate n c) = replicate n c"
  by (cases n) (simp_all add: strip_def replicate_append_same)

lemma normalize_text_replicate:
  "\<not> is_space c \<Longrightarrow> c \<noteq> CHR 0x00 \<Longrightarrow> normalize_text (replicate n c) = replicate n c"
  by (simp add: normalize_text_def strip_replicate)

lemma capped_replicate:
  "\<not> is_space c \<Longrightarrow> c \<noteq> CHR 0x00 \<Longrightarrow> capped (replicate n c) = replicate (min 60000 n) c"
  by (simp add: capped_eq normalize_text_replicate MAX_CHARS_PER_FILE_def)

lemma length_numbered_standards: "length (numbered_standards n body) = n"
  by (induction n) simp_all

lemma cap_all_numbered:
  "cap_all (numbered_standards n body) = numbered_standards n (capped body)"
  by (induction n) (simp_all add: cap_all_def)

lemma take_numbered:
  "map (\<lambda>(filename, t). (filename, take b t)) (numbered_standards n body) =
     numbered_standards n (take b body)"
  by (induction n) simp_all

lemma total_chars_numbered:
  "total_chars a (numbered_standards n body) = length a + n * length body"
  by (induction n) (simp_all add: total_chars_def)

lemma sum_take_le:
  "sum_list (map (\<lambda>(_, t). length t) (map (\<lambda>(filename, t). (filename, take b t)) xs))
     \<le> b * length xs"
  by (induction xs) (auto simp: min_def)

lemma length_capped: "length (capped text) \<le> 60000"
  by (simp add: capped_eq MAX_CHARS_PER_FILE_def)

text \<open>
  Claim C2, as amended. For a non-empty list of standards whose per-file-capped texts,
  with the agreement, sum to more than the total ceiling, the budgeted total is at most
  the larger of 220,000 and \<open>len(agreement_text) + 5,000 * n\<close>, where \<open>n\<close> is the
  number of standards; with at most 32 standards it is at most 220,000. The floor of
  5,000 characters for each standard is what can exceed the ceiling.
\<close>

theorem budgeter_total_bound:
  assumes "standards \<noteq> []"
    and "220000 < total_chars (capped agreement_text) (cap_all standards)"
  shows "total_chars (fst (truncate_inputs agreement_text standards))
             (fst (snd (truncate_inputs agreement_text standards)))
           \<le> max 220000 (length (fst (truncate_inputs agreement_text standards))
                           + 5000 * length standards)
         \<and> (length standards \<le> 32 \<longrightarrow>
              total_chars (fst (truncate_inputs agreement_text standards))
                (fst (snd (truncate_inputs agreement_text standards))) \<le> 220000)"
proof -
  define a where "a = capped agreement_text"
  define n where "n = length standards"
  define r where "r = 220000 - length a"
  define b where "b = per_standard_budget_of a (cap_all standards)"
  have la: "length a \<le> 60000" by (simp add: a_def length_capped)
  have n0: "0 < n" using assms(1) by (simp add: n_def)
  have "nat (max 0 (220000 - int (length a))) = 220000 - length a"
    by linarith
  then have b_eq: "b = max 5000 (r div n)"
    by (simp add: b_def per_standard_budget_of_def r_def n_def cap_all_def MAX_TOTAL_CHARS_def
          Let_def)
  have out: "fst (snd (truncate_inputs agreement_text standards)) =
               map (\<lambda>(filename, t). (filename, take b t)) (cap_all standards)"
    using assms by (simp add: truncate_inputs_texts MAX_TOTAL_CHARS_def a_def b_def)
  have tot: "total_chars (fst (truncate_inputs agreement_text standards))
               (fst (snd (truncate_inputs agreement_text standards))) \<le> length a + b * n"
    using sum_take_le [of b "cap_all standards"]
    by (simp add: truncate_inputs_agreement out total_chars_def a_def n_def cap_all_def)
  have bn: "b * n \<le> max r (5000 * n)"
  proof (cases "5000 \<le> r div n")
    case True
    then have "b * n = r div n * n" by (simp add: b_eq max_def)
    also have "\<dots> \<le> r" by simp
    finally show ?thesis by simp
  next
    case False
    then have "b = 5000" by (simp add: b_eq max_def)
    then show ?thesis by simp
  qed
  from bn consider "b * n \<le> r" | "b * n \<le> 5000 * n"
    unfolding le_max_iff_disj by blast
  then have "length a + b * n \<le> max 220000 (length a + 5000 * n)"
  proof cases
    case 1
    then have "length a + b * n \<le> 220000" using la unfolding r_def by linarith
    then show ?thesis by (simp add: le_max_iff_disj)
  next
    case 2
    then show ?thesis by (simp add: le_max_iff_disj)
  qed
  with tot have 1: "total_chars (fst (truncate_inputs agreement_text standards))
               (fst (snd (truncate_inputs agreement_text standards)))
             \<le> max 220000 (length a + 5000 * n)"
    by linarith
  have 2: "n \<le> 32 \<Longrightarrow> max 220000 (length a + 5000 * n) = 220000"
    using la by simp
  show ?thesis
    using 1 2 by (auto simp: a_def n_def truncate_inputs_agreement)
qed


lemma not_space_a: "\<not> is_space (CHR ''a'')" "\<not> is_space (CHR ''b'')"
  by (simp_all add: is_space_def)

text \<open>
  Claim C2, as stated, fails: an agreement of 60,000 characters and 33 standards of
  5,000 characters each are oversubscribed (225,000 characters), the per-standard budget
  is \<open>max(5000, 160000 // 33) = 5000\<close>, no standard is cut, and the budgeted total
  stays at 225,000, above the ceiling of 220,000.
\<close>

theorem budgeter_total_counterexample:
  "numbered_standards 33 (replicate 5000 (CHR ''b'')) \<noteq> []
   \<and> 220000 < total_chars (capped (replicate 60000 (CHR ''a'')))
                 (cap_all (numbered_standards 33 (replicate 5000 (CHR ''b''))))
   \<and> \<not> total_chars
         (fst (truncate_inputs (replicate 60000 (CHR ''a''))
                (numbered_standards 33 (replicate 5000 (CHR ''b'')))))
         (fst (snd (truncate_inputs (replicate 60000 (CHR ''a''))
                (numbered_standards 33 (replicate 5000 (CHR ''b'')))))) \<le> 220000"
proof -
  have ne: "numbered_standards 33 (replicate 5000 (CHR ''b'')) \<noteq> []"
    using length_numbered_standards [of 33 "replicate 5000 (CHR ''b'')"] by auto
  have ca: "capped (replicate 60000 (CHR ''a'')) = replicate 60000 (CHR ''a'')"
    by (simp add: capped_replicate not_space_a)
  have cb: "capped (replicate 5000 (CHR ''b'')) = replicate 5000 (CHR ''b'')"
    by (simp add: capped_replicate not_space_a)
  have tot: "total_chars (capped (replicate 60000 (CHR ''a'')))
                 (cap_all (numbered_standards 33 (replicate 5000 (CHR ''b'')))) = 225000"
    by (simp add: ca cb cap_all_numbered total_chars_numbered)
  have b: "per_standard_budget_of (replicate 60000 (CHR ''a''))
             (numbered_standards 33 (replicate 5000 (CHR ''b''))) = 5000"
    by (simp add: per_standard_budget_of_def length_numbered_standards MAX_TOTAL_CHARS_def)
  have out: "fst (snd (truncate_inputs (replicate 60000 (CHR ''a''))
                (numbered_standards 33 (replicate 5000 (CHR ''b''))))) =
             numbered_standards 33 (replicate 5000 (CHR ''b''))"
    using ne tot
    by (simp add: truncate_inputs_texts MAX_TOTAL_CHARS_def)
       (simp add: ca cb cap_all_numbered b take_numbered)
  show ?thesis
    using ne tot by (simp add: out truncate_inputs_agreement ca total_chars_numbered)
qed


text \<open>Claim C2, as amended, at an oversubscribed input with three standards.\<close>

theorem budgeter_total_bound_witness:
  "numbered_standards 3 (replicate 60000 (CHR ''b'')) \<noteq> []
   \<and> 220000 < total_chars (capped (replicate 60000 (CHR ''a'')))
                 (cap_all (numbered_standards 3 (replicate 60000 (CHR ''b''))))
   \<and> total_chars
         (fst (truncate_inputs (replicate 60000 (CHR ''a''))
                (numbered_standards 3 (replicate 60000 (CHR ''b'')))))
         (fst (snd (truncate_inputs (replicate 60000 (CHR ''a''))
                (numbered_standards 3 (replicate 60000 (CHR ''b'')))))) \<le> 220000"
proof -
  have ne: "numbered_standards 3 (replicate 60000 (CHR ''b'')) \<noteq> []"
    using length_numbered_standards [of 3 "replicate 60000 (CHR ''b'')"] by auto
  have tot: "220000 < total_chars (capped (replicate 60000 (CHR ''a'')))
                 (cap_all (numbered_standards 3 (replicate 60000 (CHR ''b''))))"
    by (simp add: capped_replicate not_space_a cap_all_numbered total_chars_numbered)
  show ?thesis
    using budgeter_total_bound [OF ne tot] ne tot
    by (simp add: length_numbered_standards)
qed

text \<open>
  Claim C7. When the normalized, per-file-capped texts sum to at most the total ceiling,
  or there is no standard, the budgeter returns exactly the normalized texts capped at
  60,000 characters, and the truncation report holds, for the agreement and for every
  file name, whether the per-file cap cut the text (for a file name given twice, the
  flag of its last text).
\<close>

theorem budgeter_no_oversubscription:
  assumes "length (take 60000 (normalize_text agreement_text))
             + sum_list (map (\<lambda>(_, t). length (take 60000 (normalize_text t))) standards)
             \<le> 220000
           \<or> standards = []"
  shows "fst (truncate_inputs agreement_text standards) = take 60000 (normalize_text agreement_text)
       \<and> fst (snd (truncate_inputs agreement_text standards)) =
           map (\<lambda>(filename, t). (filename, take 60000 (normalize_text t))) standards
       \<and> truncated_agreement (snd (snd (truncate_inputs agreement_text standards))) =
           (60000 < length (normalize_text agreement_text))
       \<and> map_of (truncated_standards (snd (snd (truncate_inputs agreement_text standards)))) =
           map_of (rev (map (\<lambda>(filename, t). (filename, 60000 < length (normalize_text t)))
                          standards))
       \<and> (distinct (map fst standards) \<longrightarrow>
            (\<forall>(filename, t) \<in> set standards.
               map_of (truncated_standards (snd (snd (truncate_inputs agreement_text standards))))
                 filename = Some (60000 < length (normalize_text t))))"
proof -
  have tc: "total_chars (capped agreement_text) (cap_all standards) =
          length (take 60000 (normalize_text agreement_text))
             + sum_list (map (\<lambda>(_, t). length (take 60000 (normalize_text t))) standards)"
    by (induction standards)
       (auto simp: total_chars_def cap_all_def capped_eq MAX_CHARS_PER_FILE_def)
  have h: "total_chars (capped agreement_text) (cap_all standards) \<le> MAX_TOTAL_CHARS
           \<or> standards = []"
    using assms unfolding tc by (simp add: MAX_TOTAL_CHARS_def)
  have cf: "cut_flags standards =
      map (\<lambda>(filename, t). (filename, 60000 < length (normalize_text t))) standards"
    by (simp add: cut_flags_def cut_eq MAX_CHARS_PER_FILE_def)
  have 1: "fst (truncate_inputs agreement_text standards) = take 60000 (normalize_text agreement_text)"
    by (simp add: truncate_inputs_agreement capped_eq MAX_CHARS_PER_FILE_def)
  have 2: "fst (snd (truncate_inputs agreement_text standards)) =
           map (\<lambda>(filename, t). (filename, take 60000 (normalize_text t))) standards"
    using h by (simp add: truncate_inputs_texts)
       (simp add: cap_all_def capped_eq MAX_CHARS_PER_FILE_def)
  have 3: "truncated_agreement (snd (snd (truncate_inputs agreement_text standards))) =
           (60000 < length (normalize_text agreement_text))"
    using truncate_inputs_meta_small(1) [OF h] by (simp add: cut_eq MAX_CHARS_PER_FILE_def)
  have 4: "map_of (truncated_standards (snd (snd (truncate_inputs agreement_text standards)))) =
           map_of (rev (map (\<lambda>(filename, t). (filename, 60000 < length (normalize_text t)))
                          standards))"
    using truncate_inputs_meta_small(2) [OF h] by (simp add: cf)
  have 5: "map_of (truncated_standards (snd (snd (truncate_inputs agreement_text standards))))
                 filename = Some (60000 < length (normalize_text t))"
    if d: "distinct (map fst standards)" and m: "(filename, t) \<in> set standards" for filename t
  proof -
    let ?fl = "map (\<lambda>(filename, t). (filename, 60000 < length (normalize_text t))) standards"
    have mf: "map fst ?fl = map fst standards" by (induction standards) auto
    have "distinct (map fst ?fl)" unfolding mf by (rule d)
    then have "distinct (map fst (rev ?fl))" unfolding rev_map [symmetric] distinct_rev .
    moreover have "(filename, 60000 < length (normalize_text t)) \<in> set (rev ?fl)"
      using m by force
    ultimately show ?thesis unfolding 4 by (rule map_of_is_SomeI)
  qed
  show ?thesis using 1 2 3 4 5 by blast
qed

text \<open>
  Claim C10. In both phases the agreement text returned is its per-file-capped form, a
  prefix of the normalized agreement of at most 60,000 characters; every standard keeps
  its file name and position, and its text is a prefix of its normalized input of at most
  60,000 characters.
\<close>

theorem budgeter_outputs_bounded_prefixes:
  "fst (truncate_inputs agreement_text standards) =
      fst (truncate_text (normalize_text agreement_text) 60000)
   \<and> prefix (fst (truncate_inputs agreement_text standards)) (normalize_text agreement_text)
   \<and> length (fst (truncate_inputs agreement_text standards)) \<le> 60000
   \<and> list_all2 (\<lambda>(filename, t) (filename', t').
          filename' = filename \<and> prefix t' (normalize_text t) \<and> length t' \<le> 60000)
        standards (fst (snd (truncate_inputs agreement_text standards)))"
proof -
  have 1: "fst (truncate_inputs agreement_text standards) =
      fst (truncate_text (normalize_text agreement_text) 60000)"
    by (simp add: truncate_inputs_agreement capped_def MAX_CHARS_PER_FILE_def)
  have 2: "prefix (fst (truncate_inputs agreement_text standards)) (normalize_text agreement_text)"
    by (simp add: 1 truncate_fst take_is_prefix)
  have 3: "length (fst (truncate_inputs agreement_text standards)) \<le> 60000"
    by (simp add: 1 truncate_fst)
  have 4: "list_all2 (\<lambda>(filename, t) (filename', t').
          filename' = filename \<and> prefix t' (normalize_text t) \<and> length t' \<le> 60000)
        standards (fst (snd (truncate_inputs agreement_text standards)))"
    by (auto simp: truncate_inputs_texts cap_all_def capped_eq MAX_CHARS_PER_FILE_def
          list_all2_map2 list_all2_same split_beta take_is_prefix
          prefix_order.trans [OF take_is_prefix take_is_prefix])
  show ?thesis using 1 2 3 4 by blast
qed


text \<open>Claim C7 at a small input: nothing is cut and no flag is set.\<close>

theorem budgeter_no_oversubscription_witness:
  "truncate_inputs ''  agreement '' [(''a.txt'', '' x ''), (''b.txt'', ''y'')] =
     (''agreement'', [(''a.txt'', ''x''), (''b.txt'', ''y'')],
      \<lparr>max_chars_per_file = 60000, max_total_chars = 220000, truncated_agreement = False,
       truncated_standards = [(''a.txt'', False), (''b.txt'', False)]\<rparr>)
   \<and> fst (snd (truncate_inputs ''  agreement '' [(''a.txt'', '' x ''), (''b.txt'', ''y'')])) =
       [(''a.txt'', take 60000 (normalize_text '' x '')),
        (''b.txt'', take 60000 (normalize_text ''y''))]
   \<and> map_of (truncated_standards
         (snd (snd (truncate_inputs ''  agreement '' [(''a.txt'', '' x ''), (''b.txt'', ''y'')]))))
         ''a.txt'' = Some (60000 < length (normalize_text '' x ''))"
proof -
  have n: "normalize_text ''  agreement '' = ''agreement''" "normalize_text '' x '' = ''x''"
      "normalize_text ''y'' = ''y''"
    by (simp_all add: normalize_text_def strip_def is_space_def)
  have h: "length (take 60000 (normalize_text ''  agreement ''))
             + sum_list (map (\<lambda>(_, t). length (take 60000 (normalize_text t)))
                 [(''a.txt'', '' x ''), (''b.txt'', ''y'')]) \<le> 220000
           \<or> [(''a.txt'', '' x ''), (''b.txt'', ''y'')] = []"
    by (simp add: n)
  have e: "truncate_inputs ''  agreement '' [(''a.txt'', '' x ''), (''b.txt'', ''y'')] =
     (''agreement'', [(''a.txt'', ''x''), (''b.txt'', ''y'')],
      \<lparr>max_chars_per_file = 60000, max_total_chars = 220000, truncated_agreement = False,
       truncated_standards = [(''a.txt'', False), (''b.txt'', False)]\<rparr>)"
    by (simp add: truncate_inputs_def n truncate_text_def
          MAX_CHARS_PER_FILE_def MAX_TOTAL_CHARS_def total_chars_def)
  show ?thesis
    using budgeter_no_oversubscription [OF h] e by simp
qed

text \<open>
  Claim C10 at an input where the second phase runs: four standards of 60,000 characters
  are cut to \<open>160000 // 4 = 40000\<close> characters each, the agreement stays at 60,000.
\<close>

theorem budgeter_outputs_bounded_prefixes_witness:
  "fst (snd (truncate_inputs (replicate 70000 (CHR ''a''))
              (numbered_standards 4 (replicate 60000 (CHR ''b''))))) =
     numbered_standards 4 (replicate 40000 (CHR ''b''))
   \<and> fst (truncate_inputs (replicate 70000 (CHR ''a''))
              (numbered_standards 4 (replicate 60000 (CHR ''b'')))) = replicate 60000 (CHR ''a'')
   \<and> list_all2 (\<lambda>(filename, t) (filename', t').
          filename' = filename \<and> prefix t' (normalize_text t) \<and> length t' \<le> 60000)
        (numbered_standards 4 (replicate 60000 (CHR ''b'')))
        (numbered_standards 4 (replicate 40000 (CHR ''b'')))"
proof -
  let ?A = "replicate 70000 (CHR ''a'')"
  let ?S = "numbered_standards 4 (replicate 60000 (CHR ''b''))"
  have ne: "?S \<noteq> []"
    using length_numbered_standards [of 4 "replicate 60000 (CHR ''b'')"] by auto
  have ca: "capped ?A = replicate 60000 (CHR ''a'')"
    by (simp add: capped_replicate not_space_a)
  have cb: "capped (replicate 60000 (CHR ''b'')) = replicate 60000 (CHR ''b'')"
    by (simp add: capped_replicate not_space_a)
  have tot: "total_chars (capped ?A) (cap_all ?S) = 300000"
    by (simp add: ca cb cap_all_numbered total_chars_numbered)
  have b: "per_standard_budget_of (replicate 60000 (CHR ''a'')) ?S = 40000"
    by (simp add: per_standard_budget_of_def length_numbered_standards MAX_TOTAL_CHARS_def)
  have out: "fst (snd (truncate_inputs ?A ?S)) = numbered_standards 4 (replicate 40000 (CHR ''b''))"
    using ne tot
    by (simp add: truncate_inputs_texts MAX_TOTAL_CHARS_def)
       (simp add: ca cb cap_all_numbered b take_numbered)
  show ?thesis
    using budgeter_outputs_bounded_prefixes [of ?A ?S]
    by (simp add: out truncate_text_def normalize_text_replicate not_space_a)
qed

section \<open>Properties of the output versioner\<close>

lemma try_candidates_find:
  "try_candidates existing names =
     (case find (\<lambda>n. n \<notin> existing) names of
        None \<Rightarrow> (Inl (RuntimeError
          ''Failed to allocate a versioned output directory (too many existing versions).''),
          existing)
      | Some n \<Rightarrow> (Inr n, insert n existing))"
  by (induction names) (auto simp: mkdir_def)


lemma length_candidates: "length (candidates base_name) = 9999"
  by (simp add: candidates_def del: upt_rec_numeral)

lemma candidates_0: "candidates base_name ! 0 = base_name"
  by (simp add: candidates_def del: upt_rec_numeral)

lemma candidates_nth:
  assumes "2 \<le> k" "k < 10000"
  shows "candidates base_name ! (k - 1) = base_name @ ''_v'' @ str_nat k"
proof -
  obtain m where k: "k = m + 2" using assms(1) by (metis add.commute le_Suc_ex)
  have "m < length [2..<10000::nat]" using assms(2) k by (simp del: upt_rec_numeral)
  then have "map (\<lambda>i. base_name @ ''_v'' @ str_nat i) [2..<10000] ! m =
        base_name @ ''_v'' @ str_nat ([2..<10000] ! m)"
    by (rule nth_map)
  moreover have "[2..<10000] ! m = 2 + m" using assms(2) k by (intro nth_upt) simp
  ultimately show ?thesis by (simp add: candidates_def k add.commute del: upt_rec_numeral)
qed

lemma try_candidates_success_iff:
  "try_candidates existing names = (Inr name, existing') \<longleftrightarrow>
     (\<exists>i < length names. name = names ! i \<and> name \<notin> existing
         \<and> (\<forall>j<i. names ! j \<in> existing))
     \<and> existing' = insert name existing"
proof (cases "find (\<lambda>n. n \<notin> existing) names")
  case None
  then have "\<forall>x\<in>set names. x \<in> existing"
    by (simp add: find_None_iff)
  then show ?thesis
    by (auto simp: try_candidates_find None)
next
  case (Some n)
  then obtain i where i: "i < length names" "names ! i \<notin> existing" "n = names ! i"
      "\<forall>j<i. names ! j \<in> existing"
    by (auto simp: find_Some_iff)
  show ?thesis
  proof
    assume "try_candidates existing names = (Inr name, existing')"
    then have "name = n" "existing' = insert n existing"
      by (auto simp: try_candidates_find Some)
    with i show "(\<exists>i < length names. name = names ! i \<and> name \<notin> existing
         \<and> (\<forall>j<i. names ! j \<in> existing)) \<and> existing' = insert name existing"
      by blast
  next
    assume r: "(\<exists>i < length names. name = names ! i \<and> name \<notin> existing
         \<and> (\<forall>j<i. names ! j \<in> existing)) \<and> existing' = insert name existing"
    then obtain k where k: "k < length names" "name = names ! k" "name \<notin> existing"
        "\<forall>j<k. names ! j \<in> existing"
      by blast
    have "k = i"
    proof (rule ccontr)
      assume "k \<noteq> i"
      then consider "k < i" | "i < k" by linarith
      then show False
      proof cases
        case 1 with i(4) k(2,3) show False by blast
      next
        case 2 with k(4) i(2) show False by blast
      qed
    qed
    with k i r show "try_candidates existing names = (Inr name, existing')"
      by (simp add: try_candidates_find Some)
  qed
qed

lemma try_candidates_failure_iff:
  "(\<exists>e. fst (try_candidates existing names) = Inl e) \<longleftrightarrow> set names \<subseteq> existing"
  by (induction names) (auto simp: mkdir_def)

lemma try_candidates_failure_state:
  "fst (try_candidates existing names) = Inl e \<Longrightarrow>
     snd (try_candidates existing names) = existing"
  by (induction names) (auto simp: mkdir_def split: if_splits)

lemma candidates_3:
  "candidates b = b # (b @ ''_v2'') # (b @ ''_v3'') # map (\<lambda>i. b @ ''_v'' @ str_nat i) [4..<10000]"
proof -
  have "[2..<10000] = 2 # [3..<10000::nat]"
    by (subst upt_rec) (simp del: upt_rec_numeral)
  also have "[3..<10000] = 3 # [4..<10000::nat]"
    by (subst upt_rec) (simp del: upt_rec_numeral)
  finally have "[2..<10000] = 2 # 3 # [4..<10000::nat]" .
  moreover have "str_nat 2 = ''2''" "str_nat 3 = ''3''"
    by (simp_all add: str_nat.simps)
  ultimately show ?thesis by (simp add: candidates_def del: upt_rec_numeral)
qed


text \<open>
  Claim C5. The candidates are \<open>base_name\<close>, \<open>base_name_v2\<close>, ..., \<open>base_name_v9999\<close>, in
  this order. A call succeeds with a name exactly when that name is the first candidate
  that does not exist yet, and it then creates that name and nothing else; it fails
  exactly when all 9999 candidates exist, and then creates nothing. A later successful
  call, for any base name and in any state that still holds what the first call created,
  returns a different name.
\<close>

theorem versioner_allocates_first_free:
  "length (candidates base_name) = 9999
   \<and> candidates base_name ! 0 = base_name
   \<and> (\<forall>k. 2 \<le> k \<and> k < 10000 \<longrightarrow>
         candidates base_name ! (k - 1) = base_name @ ''_v'' @ str_nat k)
   \<and> (create_versioned_output_dir existing base_name = (Inr name, existing') \<longleftrightarrow>
         (\<exists>i < length (candidates base_name).
             name = candidates base_name ! i \<and> name \<notin> existing
             \<and> (\<forall>j<i. candidates base_name ! j \<in> existing))
         \<and> existing' = insert name existing)
   \<and> ((\<exists>e. fst (create_versioned_output_dir existing base_name) = Inl e) \<longleftrightarrow>
         set (candidates base_name) \<subseteq> existing)
   \<and> (\<forall>e. fst (create_versioned_output_dir existing base_name) = Inl e \<longrightarrow>
         snd (create_versioned_output_dir existing base_name) = existing)
   \<and> (\<forall>later base_name2 name2 later'.
         create_versioned_output_dir existing base_name = (Inr name, existing')
         \<and> existing' \<subseteq> later
         \<and> create_versioned_output_dir later base_name2 = (Inr name2, later')
         \<longrightarrow> name2 \<noteq> name)"
proof -
  have distinct_calls: "name2 \<noteq> name"
    if "create_versioned_output_dir existing base_name = (Inr name, existing')"
      "existing' \<subseteq> later"
      "create_versioned_output_dir later base_name2 = (Inr name2, later')"
    for later base_name2 name2 later'
  proof -
    from that(1) have "name \<in> existing'"
      unfolding create_versioned_output_dir_def try_candidates_success_iff by blast
    with that(2) have "name \<in> later" by blast
    moreover from that(3) have "name2 \<notin> later"
      unfolding create_versioned_output_dir_def try_candidates_success_iff by blast
    ultimately show ?thesis by blast
  qed
  show ?thesis
    using length_candidates [of base_name] candidates_0 [of base_name]
      candidates_nth [of _ base_name]
      try_candidates_success_iff [of existing "candidates base_name" name existing']
      try_candidates_failure_iff [of existing "candidates base_name"]
      try_candidates_failure_state [of existing "candidates base_name"]
      distinct_calls
    unfolding create_versioned_output_dir_def by blast
qed

text \<open>
  Claim C5 at concrete directories: with \<open>agreement\<close> and \<open>agreement_v2\<close> taken the call
  creates \<open>agreement_v3\<close>; a second call then creates \<open>agreement_v4\<close>; with every candidate
  taken the call fails.
\<close>

theorem versioner_allocates_first_free_witness:
  "create_versioned_output_dir {''agreement'', ''agreement_v2''} ''agreement'' =
     (Inr ''agreement_v3'', {''agreement_v3'', ''agreement'', ''agreement_v2''})
   \<and> candidates ''agreement'' ! 2 = ''agreement_v3''
   \<and> ''agreement_v3'' \<notin> {''agreement'', ''agreement_v2''}
   \<and> (\<exists>e. fst (create_versioned_output_dir (set (candidates ''agreement'')) ''agreement'')
              = Inl e)
   \<and> snd (create_versioned_output_dir (set (candidates ''agreement'')) ''agreement'')
        = set (candidates ''agreement'')"
proof -
  have c: "create_versioned_output_dir {''agreement'', ''agreement_v2''} ''agreement'' =
     (Inr ''agreement_v3'', {''agreement_v3'', ''agreement'', ''agreement_v2''})"
    by (simp add: create_versioned_output_dir_def candidates_3 mkdir_def del: upt_rec_numeral)
  have n: "candidates ''agreement'' ! 2 = ''agreement_v3''"
    by (simp add: candidates_3 del: upt_rec_numeral)
  note t = versioner_allocates_first_free
             [of "''agreement''" "set (candidates ''agreement'')" "''agreement_v3''"
                 "{''agreement_v3'', ''agreement'', ''agreement_v2''}"]
  have f: "\<exists>e. fst (create_versioned_output_dir (set (candidates ''agreement'')) ''agreement'')
              = Inl e"
    using t by blast
  then have s: "snd (create_versioned_output_dir (set (candidates ''agreement'')) ''agreement'')
        = set (candidates ''agreement'')"
    using t by blast
  show ?thesis using c n f s by simp
qed

end
